theory Spec2Isabelle
  imports Main
begin

section \<open>User-space crons: the data model\<close>

text \<open>
  The module under verification registers recurring jobs in a document table \<open>crons\<close>
  and keeps each of them alive through the platform's single-shot scheduler: the mutation
  \<open>rescheduler\<close> runs once per tick, dispatches the target function and schedules its own
  successor.

  Document ids and scheduled-function ids are natural numbers: the id of a row is its
  position in its table, rows are only ever appended, and a deleted row leaves a hole, so
  that an id is never used twice.

  Times and the period of an interval are whole milliseconds, of type \<open>int\<close>. The
  source's \<open>number\<close> is a double: a period with a fraction, \<open>NaN\<close> and the infinities
  have no counterpart here, and the sums \<open>now + delay\<close> of the platform and
  \<open>scheduledTime + ms\<close> of the rescheduler are exact here where the doubles round (the
  platform, besides, stores a time through a conversion to seconds and back). The
  properties below are therefore about which calls are made, in which state and on which
  handles. Where one of them names the time of a new scheduled function, it is the time
  as computed here, on whole milliseconds; no property is stated about the exact value of
  a stored time in general, and none about a period that is not a whole number.
\<close>

text \<open>The two types of crons (\<open>type Schedule\<close>).\<close>

datatype schedule = Interval int | Cron string

text \<open>The \<open>state.kind\<close> of a document of the system table of scheduled functions.\<close>

datatype job_state = Pending | InProgress | Success | Failed | Canceled

text \<open>
  What a scheduled function will call: the rescheduler with its \<open>cronJobId\<close> argument, or
  the target function of a cron, by name, with the cron's arguments.
\<close>

datatype 'a call = Rescheduler nat | Target string 'a

text \<open>
  Modelled from the spec: the schema that declares the table \<open>crons\<close> and its index on
  \<open>name\<close> is not among the sources. The fields are those of the spec's Job Record, under
  the names by which the module reads and writes them: \<open>schedulerJobId\<close> is the spec's
  \<open>pendingTickTaskId\<close> and \<open>executionJobId\<close> its \<open>lastDispatchTaskId\<close>. The three
  optional fields are absent when \<open>None\<close>. The \<open>_id\<close> of a document is its position in
  the table and is carried beside the document where the module needs it.
\<close>

record 'a cronJob =
  functionName :: string
  args :: 'a
  name :: "string option"
  schedule :: schedule
  schedulerJobId :: "nat option"
  executionJobId :: "nat option"

text \<open>A row of the system table of scheduled functions.\<close>

record 'a scheduledJob =
  scheduledTime :: int
  call :: "'a call"
  state :: job_state

text \<open>
  The mutation context: the two tables and the clock (\<open>new Date()\<close>, and the instant from
  which \<open>runAfter\<close> counts).
\<close>

record 'a ctx =
  crons :: "'a cronJob option list"
  scheduled :: "'a scheduledJob option list"
  now :: int

text \<open>
  Every \<open>throw\<close> of the module, and the errors of the platform calls it makes. The module
  throws plain \<open>Error\<close>s that differ in their message only:
  \<^item> \<open>JobNotFound\<close>: "Cron job ... not found" (by id or by name);
  \<^item> \<open>NotScheduled\<close>: "Cron job ... not scheduled";
  \<^item> \<open>ScheduledJobNotFound\<close>: "Scheduled job ... not found";
  \<^item> \<open>UnexpectedState\<close>: "We are running in job ... but state is ...";
  \<^item> \<open>DuplicateName\<close>: "Cron job with name ... already exists";
  \<^item> \<open>InvalidInterval\<close>: "Interval must be >= 1000ms";
  \<^item> \<open>InvalidCronSpec\<close>: "Invalid cronspec: ...";
  \<^item> \<open>NotUnique\<close>: the query method \<open>unique()\<close> found more than one document;
  \<^item> \<open>DocumentMissing\<close>: \<open>db.patch\<close> or \<open>db.delete\<close> on an id with no document;
  \<^item> \<open>ParserError\<close>: the cron parser's own exception, where the module does not catch it.
\<close>

datatype error =
    JobNotFound
  | NotScheduled
  | ScheduledJobNotFound
  | UnexpectedState job_state
  | DuplicateName
  | InvalidInterval
  | InvalidCronSpec
  | NotUnique
  | DocumentMissing
  | ParserError

text \<open>
  A call returns its value or the error it threw, together with the context as it stands at
  that moment. The context returned with an error shows what had been written before the
  throw; the platform then discards these writes with the failed mutation.
\<close>

type_synonym ('r, 'a) result = "(error + 'r) \<times> 'a ctx"

text \<open>
  The external functions the module is built on and whose code is not part of it: the cron
  parser (\<open>parseExpression\<close> accepts an expression or throws; \<open>nextDate\<close>, the
  parser's \<open>next()\<close>, is the first fire time after a date) and \<open>parseArgs\<close> of
  \<open>./common\<close>, which turns the optional arguments of a registration into the stored
  arguments.
\<close>

record 'a env =
  parseExpression :: "string \<Rightarrow> bool"
  nextDate :: "int \<Rightarrow> string \<Rightarrow> int"
  parseArgs :: "'a option \<Rightarrow> 'a"

section \<open>The platform: document store and scheduler\<close>

text \<open>\<open>ctx.db.get\<close>: the document with this id, or null.\<close>

definition db_get :: "'a ctx \<Rightarrow> nat \<Rightarrow> 'a cronJob option" where
  "db_get s i = (if i < length (crons s) then crons s ! i else None)"

text \<open>\<open>ctx.db.insert\<close>: appends the document and returns its new id.\<close>

definition db_insert :: "'a ctx \<Rightarrow> 'a cronJob \<Rightarrow> nat \<times> 'a ctx" where
  "db_insert s d = (length (crons s), s\<lparr>crons := crons s @ [Some d]\<rparr>)"

text \<open>\<open>ctx.db.patch\<close>: updates the fields of an existing document; throws when there is none.\<close>

definition db_patch :: "'a ctx \<Rightarrow> nat \<Rightarrow> ('a cronJob \<Rightarrow> 'a cronJob) \<Rightarrow> (unit, 'a) result" where
  "db_patch s i f =
     (case db_get s i of
        None \<Rightarrow> (Inl DocumentMissing, s)
      | Some d \<Rightarrow> (Inr (), s\<lparr>crons := (crons s)[i := Some (f d)]\<rparr>))"

text \<open>\<open>ctx.db.delete\<close>: removes an existing document; throws when there is none.\<close>

definition db_delete :: "'a ctx \<Rightarrow> nat \<Rightarrow> (unit, 'a) result" where
  "db_delete s i =
     (case db_get s i of
        None \<Rightarrow> (Inl DocumentMissing, s)
      | Some d \<Rightarrow> (Inr (), s\<lparr>crons := (crons s)[i := None]\<rparr>))"

text \<open>The documents of a table with their ids, in insertion order, numbered from \<open>i\<close>.\<close>

fun docs_from :: "nat \<Rightarrow> 'd option list \<Rightarrow> (nat \<times> 'd) list" where
  "docs_from i [] = []"
| "docs_from i (None # rows) = docs_from (Suc i) rows"
| "docs_from i (Some d # rows) = (i, d) # docs_from (Suc i) rows"

text \<open>\<open>ctx.db.query("crons").collect()\<close>.\<close>

definition collect :: "'a ctx \<Rightarrow> (nat \<times> 'a cronJob) list" where
  "collect s = docs_from 0 (crons s)"

text \<open>
  \<open>.withIndex("name", (q) => q.eq("name", n)).unique()\<close>: null when no document has the
  name, the document when exactly one has, and an exception when several have.
\<close>

definition unique :: "'d list \<Rightarrow> error + 'd option" where
  "unique ds = (case ds of [] \<Rightarrow> Inr None | [d] \<Rightarrow> Inr (Some d) | _ \<Rightarrow> Inl NotUnique)"

definition with_name :: "'a ctx \<Rightarrow> string \<Rightarrow> (nat \<times> 'a cronJob) list" where
  "with_name s n = filter (\<lambda>doc. name (snd doc) = Some n) (collect s)"

text \<open>\<open>ctx.db.system.get\<close>: the scheduled function with this id, or null.\<close>

definition system_get :: "'a ctx \<Rightarrow> nat \<Rightarrow> 'a scheduledJob option" where
  "system_get s j = (if j < length (scheduled s) then scheduled s ! j else None)"

text \<open>
  \<open>ctx.scheduler.runAt\<close>: a new pending scheduled function, whose id is returned. The time
  is stored as given (see the remark on numbers above).
\<close>

definition runAt :: "'a ctx \<Rightarrow> int \<Rightarrow> 'a call \<Rightarrow> nat \<times> 'a ctx" where
  "runAt s t c =
     (length (scheduled s),
      s\<lparr>scheduled := scheduled s @ [Some \<lparr>scheduledTime = t, call = c, state = Pending\<rparr>]\<rparr>)"

text \<open>
  \<open>ctx.scheduler.runAfter\<close>: the same, a delay after the current time. The platform
  refuses a delay that is negative or not finite; the module calls it with the delay 0 and
  with a validated period, which in this model is a whole number of at least 1000.
\<close>

definition runAfter :: "'a ctx \<Rightarrow> int \<Rightarrow> 'a call \<Rightarrow> nat \<times> 'a ctx" where
  "runAfter s delay c = runAt s (now s + delay) c"

text \<open>
  \<open>ctx.scheduler.cancel\<close>: a scheduled function that has not finished becomes canceled; on
  one that has finished, or that does not exist, the call does nothing.
\<close>

definition cancel :: "'a ctx \<Rightarrow> nat \<Rightarrow> 'a ctx" where
  "cancel s j =
     (case system_get s j of
        None \<Rightarrow> s
      | Some job \<Rightarrow>
          if state job = Pending \<or> state job = InProgress
          then s\<lparr>scheduled := (scheduled s)[j := Some (job\<lparr>state := Canceled\<rparr>)]\<rparr>
          else s)"

section \<open>The module\<close>

text \<open>\<open>list\<close>: all user space cron jobs (\<open>list\<close> already names the type of lists).\<close>

definition list_crons :: "'a ctx \<Rightarrow> (nat \<times> 'a cronJob) list" where
  "list_crons s = collect s"

text \<open>\<open>get\<close>: an existing cron job by id.\<close>

definition get :: "'a ctx \<Rightarrow> nat \<Rightarrow> 'a cronJob option" where
  "get s cronJobId = db_get s cronJobId"

text \<open>\<open>getByName\<close>: an existing cron job by name, with its \<open>_id\<close>.\<close>

definition getByName :: "'a ctx \<Rightarrow> string \<Rightarrow> error + (nat \<times> 'a cronJob) option" where
  "getByName s n = unique (with_name s n)"

text \<open>
  \<open>del\<close>: delete and deschedule a cron job by id. Both checks precede every write. A
  field of a document holds an id or is absent, and an id is never the empty string, so
  that the source's tests \<open>!cronJob.schedulerJobId\<close> and \<open>cronJob.executionJobId\<close> ask
  whether the field is present.
\<close>

definition del :: "'a ctx \<Rightarrow> nat \<Rightarrow> (unit, 'a) result" where
  "del s cronJobId =
     (case db_get s cronJobId of
        None \<Rightarrow> (Inl JobNotFound, s)
      | Some cronJob \<Rightarrow>
          (case schedulerJobId cronJob of
             None \<Rightarrow> (Inl NotScheduled, s)
           | Some sid \<Rightarrow>
               let s1 = cancel s sid;
                   s2 = (case executionJobId cronJob of
                           None \<Rightarrow> s1
                         | Some eid \<Rightarrow> cancel s1 eid)
               in db_delete s2 cronJobId))"

text \<open>\<open>delByName\<close>: delete and deschedule a cron job by name.\<close>

definition delByName :: "'a ctx \<Rightarrow> string \<Rightarrow> (unit, 'a) result" where
  "delByName s n =
     (case getByName s n of
        Inl e \<Rightarrow> (Inl e, s)
      | Inr None \<Rightarrow> (Inl JobNotFound, s)
      | Inr (Some (cronJobId, cronJob)) \<Rightarrow> del s cronJobId)"

text \<open>
  \<open>nextScheduledDate\<close>: the next date to run a cron given the last time it was scheduled.
  The parser throws on an expression it rejects.
\<close>

definition nextScheduledDate :: "'a env \<Rightarrow> int \<Rightarrow> string \<Rightarrow> error + int" where
  "nextScheduledDate e prevDate cronspec =
     (if parseExpression e cronspec then Inr (nextDate e prevDate cronspec) else Inl ParserError)"

text \<open>
  The input validation that opens \<open>scheduleCron\<close>. In \<open>name && (await getByName(ctx, name))\<close>
  an absent name and the empty string are both falsy, and then the lookup is not made.
\<close>

definition validate :: "'a env \<Rightarrow> 'a ctx \<Rightarrow> schedule \<Rightarrow> string option \<Rightarrow> error + unit" where
  "validate e s sched nm =
     (case (case nm of
              None \<Rightarrow> Inr False
            | Some n \<Rightarrow>
                if n = [] then Inr False
                else (case getByName s n of
                        Inl err \<Rightarrow> Inl err
                      | Inr None \<Rightarrow> Inr False
                      | Inr (Some d) \<Rightarrow> Inr True)) of
        Inl err \<Rightarrow> Inl err
      | Inr True \<Rightarrow> Inl DuplicateName
      | Inr False \<Rightarrow>
          (case sched of
             Interval ms \<Rightarrow> if ms < 1000 then Inl InvalidInterval else Inr ()
           | Cron cronspec \<Rightarrow>
               if parseExpression e cronspec then Inr () else Inl InvalidCronSpec))"

text \<open>
  \<open>scheduleCron\<close>: initial registration and scheduling of the cron job. A function
  reference is represented by its name, which is what \<open>getFunctionName\<close> extracts and
  what the record stores. Each branch inserts the record without \<open>schedulerJobId\<close>,
  schedules the first tick and then patches the record with the handle.
\<close>

definition scheduleCron ::
  "'a env \<Rightarrow> 'a ctx \<Rightarrow> schedule \<Rightarrow> string \<Rightarrow> string option \<Rightarrow> 'a option \<Rightarrow> (nat, 'a) result" where
  "scheduleCron e s sched func nm a =
     (case validate e s sched nm of
        Inl err \<Rightarrow> (Inl err, s)
      | Inr _ \<Rightarrow>
          let a' = parseArgs e a in
          (case sched of
             Interval ms \<Rightarrow>
               let (cronJobId, s1) = db_insert s
                     \<lparr>functionName = func, args = a', name = nm, schedule = Interval ms,
                      schedulerJobId = None, executionJobId = None\<rparr>;
                   (sid, s2) = runAfter s1 ms (Rescheduler cronJobId)
               in (case db_patch s2 cronJobId (\<lambda>d. d\<lparr>schedulerJobId := Some sid\<rparr>) of
                     (Inl err, s3) \<Rightarrow> (Inl err, s3)
                   | (Inr _, s3) \<Rightarrow> (Inr cronJobId, s3))
           | Cron cronspec \<Rightarrow>
               let (cronJobId, s1) = db_insert s
                     \<lparr>functionName = func, args = a', name = nm, schedule = Cron cronspec,
                      schedulerJobId = None, executionJobId = None\<rparr>
               in (case nextScheduledDate e (now s1) cronspec of
                     Inl err \<Rightarrow> (Inl err, s1)
                   | Inr t \<Rightarrow>
                       let (sid, s2) = runAt s1 t (Rescheduler cronJobId)
                       in (case db_patch s2 cronJobId (\<lambda>d. d\<lparr>schedulerJobId := Some sid\<rparr>) of
                             (Inl err, s3) \<Rightarrow> (Inl err, s3)
                           | (Inr _, s3) \<Rightarrow> (Inr cronJobId, s3)))))"

text \<open>The four exported ways to register.\<close>

definition cron :: "'a env \<Rightarrow> 'a ctx \<Rightarrow> string \<Rightarrow> string \<Rightarrow> 'a option \<Rightarrow> (nat, 'a) result" where
  "cron e s cronspec functionReference a = scheduleCron e s (Cron cronspec) functionReference None a"

definition cronWithName ::
  "'a env \<Rightarrow> 'a ctx \<Rightarrow> string \<Rightarrow> string \<Rightarrow> string \<Rightarrow> 'a option \<Rightarrow> (nat, 'a) result" where
  "cronWithName e s n cronspec functionReference a =
     scheduleCron e s (Cron cronspec) functionReference (Some n) a"

definition interval :: "'a env \<Rightarrow> 'a ctx \<Rightarrow> int \<Rightarrow> string \<Rightarrow> 'a option \<Rightarrow> (nat, 'a) result" where
  "interval e s ms func a = scheduleCron e s (Interval ms) func None a"

definition intervalWithName ::
  "'a env \<Rightarrow> 'a ctx \<Rightarrow> string \<Rightarrow> int \<Rightarrow> string \<Rightarrow> 'a option \<Rightarrow> (nat, 'a) result" where
  "intervalWithName e s n ms func a = scheduleCron e s (Interval ms) func (Some n) a"

text \<open>
  The value of the local variable \<open>stillRunning\<close> of the rescheduler: whether the previous
  execution of the cron's function has not finished. The record names an execution job,
  that job exists, and it is pending or in progress.
\<close>

definition stillRunning :: "'a ctx \<Rightarrow> 'a cronJob \<Rightarrow> bool" where
  "stillRunning s cronJob =
     (case executionJobId cronJob of
        None \<Rightarrow> False
      | Some eid \<Rightarrow>
          (case system_get s eid of
             None \<Rightarrow> False
           | Some executionJob \<Rightarrow>
               state executionJob = Pending \<or> state executionJob = InProgress))"

text \<open>
  \<open>rescheduler\<close>: one tick. It loads the cron job and the scheduled function that is
  running right now, runs the cron's function unless the previous run has not finished,
  and schedules the next tick. The handle that \<open>runAfter\<close> returns for the cron's function
  is not bound to anything, and the only field patched is \<open>schedulerJobId\<close>.
\<close>

definition rescheduler :: "'a env \<Rightarrow> 'a ctx \<Rightarrow> nat \<Rightarrow> (unit, 'a) result" where
  "rescheduler e s cronJobId =
     (case db_get s cronJobId of
        None \<Rightarrow> (Inl JobNotFound, s)
      | Some cronJob \<Rightarrow>
          (case schedulerJobId cronJob of
             None \<Rightarrow> (Inl NotScheduled, s)
           | Some sid \<Rightarrow>
               (case system_get s sid of
                  None \<Rightarrow> (Inl ScheduledJobNotFound, s)
                | Some schedulerJob \<Rightarrow>
                    if state schedulerJob \<noteq> Pending \<and> state schedulerJob \<noteq> InProgress
                    then (Inl (UnexpectedState (state schedulerJob)), s)
                    else
                      let s1 = (if stillRunning s cronJob then s
                                else snd (runAfter s 0
                                       (Target (functionName cronJob) (args cronJob))))
                      in (case schedule cronJob of
                            Interval ms \<Rightarrow>
                              let nextTime = scheduledTime schedulerJob + ms;
                                  (nextSchedulerJobId, s2) =
                                     runAt s1 nextTime (Rescheduler cronJobId)
                              in db_patch s2 cronJobId
                                   (\<lambda>d. d\<lparr>schedulerJobId := Some nextSchedulerJobId\<rparr>)
                          | Cron cronspec \<Rightarrow>
                              (case nextScheduledDate e (scheduledTime schedulerJob) cronspec of
                                 Inl err \<Rightarrow> (Inl err, s1)
                               | Inr nextTime \<Rightarrow>
                                   let (nextSchedulerJobId, s2) =
                                          runAt s1 nextTime (Rescheduler cronJobId)
                                   in db_patch s2 cronJobId
                                        (\<lambda>d. d\<lparr>schedulerJobId := Some nextSchedulerJobId\<rparr>))))))"

section \<open>Vocabulary of the properties\<close>

text \<open>
  The three steps of a tick that has passed its checks, named so that the properties can
  speak of them: the conditional dispatch of the cron's function, the time of the next
  tick, and the scheduling of that tick with the patch of the record. Lemma
  \<open>rescheduler_checked\<close> shows that \<open>rescheduler\<close> is their composition.
\<close>

definition dispatch :: "'a ctx \<Rightarrow> 'a cronJob \<Rightarrow> 'a ctx" where
  "dispatch s cronJob =
     (if stillRunning s cronJob then s
      else snd (runAfter s 0 (Target (functionName cronJob) (args cronJob))))"

definition next_fire :: "'a env \<Rightarrow> int \<Rightarrow> schedule \<Rightarrow> error + int" where
  "next_fire e t sched =
     (case sched of
        Interval ms \<Rightarrow> Inr (t + ms)
      | Cron cronspec \<Rightarrow> nextScheduledDate e t cronspec)"

definition rearm :: "'a ctx \<Rightarrow> nat \<Rightarrow> int \<Rightarrow> (unit, 'a) result" where
  "rearm s cronJobId t =
     db_patch (snd (runAt s t (Rescheduler cronJobId))) cronJobId
       (\<lambda>d. d\<lparr>schedulerJobId := Some (length (scheduled s))\<rparr>)"

text \<open>
  The context a successful registration leaves: one more record, whose \<open>schedulerJobId\<close>
  names one more scheduled function, the first tick.
\<close>

definition first_fire :: "'a env \<Rightarrow> int \<Rightarrow> schedule \<Rightarrow> int" where
  "first_fire e t sched =
     (case sched of Interval ms \<Rightarrow> t + ms | Cron cronspec \<Rightarrow> nextDate e t cronspec)"

definition registered ::
  "'a env \<Rightarrow> 'a ctx \<Rightarrow> schedule \<Rightarrow> string \<Rightarrow> string option \<Rightarrow> 'a option \<Rightarrow> 'a ctx" where
  "registered e s sched func nm a =
     s\<lparr>crons := crons s @
          [Some \<lparr>functionName = func, args = parseArgs e a, name = nm, schedule = sched,
                 schedulerJobId = Some (length (scheduled s)), executionJobId = None\<rparr>],
       scheduled := scheduled s @
          [Some \<lparr>scheduledTime = first_fire e (now s) sched,
                 call = Rescheduler (length (crons s)), state = Pending\<rparr>]\<rparr>"

text \<open>The scheduled functions that call a cron's function, and those that are ticks of a cron job.\<close>

fun is_target :: "'a call \<Rightarrow> bool" where
  "is_target (Target f a) = True"
| "is_target (Rescheduler c) = False"

definition dispatches :: "'a ctx \<Rightarrow> (nat \<times> 'a scheduledJob) list" where
  "dispatches s = filter (\<lambda>(j, job). is_target (call job)) (docs_from 0 (scheduled s))"

definition ticks_of :: "'a ctx \<Rightarrow> nat \<Rightarrow> (nat \<times> 'a scheduledJob) list" where
  "ticks_of s cronJobId =
     filter (\<lambda>(j, job). call job = Rescheduler cronJobId) (docs_from 0 (scheduled s))"

text \<open>A scheduled function that exists and has not finished.\<close>

definition outstanding :: "'a ctx \<Rightarrow> nat \<Rightarrow> bool" where
  "outstanding s j =
     (case system_get s j of
        None \<Rightarrow> False
      | Some job \<Rightarrow> state job = Pending \<or> state job = InProgress)"

text \<open>The scheduled function that the record of a cron job names as its next tick.\<close>

definition pendingTick :: "'a ctx \<Rightarrow> nat \<Rightarrow> 'a scheduledJob option" where
  "pendingTick s cronJobId =
     (case db_get s cronJobId of
        None \<Rightarrow> None
      | Some cronJob \<Rightarrow>
          (case schedulerJobId cronJob of
             None \<Rightarrow> None
           | Some sid \<Rightarrow> system_get s sid))"

text \<open>
  A cron job is armed when its record names a pending scheduled function that is a tick of
  this very job.
\<close>

definition armed :: "'a ctx \<Rightarrow> nat \<Rightarrow> bool" where
  "armed s cronJobId =
     (case pendingTick s cronJobId of
        None \<Rightarrow> False
      | Some job \<Rightarrow> call job = Rescheduler cronJobId \<and> state job = Pending)"

text \<open>A schedule whose next fire time can be computed: the parser accepts its expression.\<close>

definition schedule_ok :: "'a env \<Rightarrow> schedule \<Rightarrow> bool" where
  "schedule_ok e sched =
     (case sched of Interval ms \<Rightarrow> True | Cron cronspec \<Rightarrow> parseExpression e cronspec)"

text \<open>
  A schedule that the validation of a registration accepts, and \<open>n\<close> successive
  registrations under the empty string as name, each made in the context that the one
  before has left.
\<close>

definition accepted :: "'a env \<Rightarrow> schedule \<Rightarrow> bool" where
  "accepted e sched =
     (case sched of
        Interval ms \<Rightarrow> \<not> ms < 1000
      | Cron cronspec \<Rightarrow> parseExpression e cronspec)"

fun register_blank ::
  "'a env \<Rightarrow> 'a ctx \<Rightarrow> schedule \<Rightarrow> string \<Rightarrow> 'a option \<Rightarrow> nat \<Rightarrow> 'a ctx" where
  "register_blank e s sched func a 0 = s"
| "register_blank e s sched func a (Suc n) =
     register_blank e (snd (scheduleCron e s sched func (Some []) a)) sched func a n"

text \<open>
  The names of the records, in insertion order, and the invariant of the table that the
  lookup by name relies on: no two records share a name that is present and not empty.
  A registration is given a name that is taken when the name is not empty and a record has it.
\<close>

definition names :: "'a ctx \<Rightarrow> string option list" where
  "names s = map (\<lambda>doc. name (snd doc)) (collect s)"

definition names_unique :: "'a ctx \<Rightarrow> bool" where
  "names_unique s = distinct (filter (\<lambda>nm. nm \<noteq> None \<and> nm \<noteq> Some []) (names s))"

definition name_taken :: "'a ctx \<Rightarrow> string option \<Rightarrow> bool" where
  "name_taken s nm =
     (case nm of
        None \<Rightarrow> False
      | Some n \<Rightarrow> n \<noteq> [] \<and> Some n \<in> set (names s))"

text \<open>
  The contexts that arise when this module alone writes the table \<open>crons\<close>: from an empty
  deployment, by registrations, deletions and ticks that return (a mutation that throws
  leaves no trace), while the clock advances and the platform moves scheduled functions
  from one state to another.
\<close>

inductive reachable :: "'a env \<Rightarrow> 'a ctx \<Rightarrow> bool" for e :: "'a env" where
  deployed: "reachable e \<lparr>crons = [], scheduled = [], now = t\<rparr>"
| registers: "reachable e s \<Longrightarrow> scheduleCron e s sched func nm a = (Inr i, s') \<Longrightarrow>
     reachable e s'"
| deletes: "reachable e s \<Longrightarrow> del s i = (Inr (), s') \<Longrightarrow> reachable e s'"
| ticks: "reachable e s \<Longrightarrow> rescheduler e s i = (Inr (), s') \<Longrightarrow> reachable e s'"
| clock: "reachable e s \<Longrightarrow> reachable e (s\<lparr>now := t\<rparr>)"
| platform: "reachable e s \<Longrightarrow> system_get s j = Some job \<Longrightarrow>
     reachable e (s\<lparr>scheduled := (scheduled s)[j := Some (job\<lparr>state := st\<rparr>)]\<rparr>)"

text \<open>No record has its \<open>executionJobId\<close> set.\<close>

definition no_execution_job :: "'a ctx \<Rightarrow> bool" where
  "no_execution_job s = list_all (\<lambda>doc. executionJobId (snd doc) = None) (collect s)"

section \<open>Example contexts\<close>

text \<open>
  A parser that knows the expression for "daily at midnight", and arguments that default
  to the empty record.
\<close>

definition example_env :: "(string \<times> int) list env" where
  "example_env =
     \<lparr>parseExpression = (\<lambda>cronspec. cronspec = ''0 0 * * *''),
      nextDate = (\<lambda>t cronspec. (t div 86400000 + 1) * 86400000),
      parseArgs = (\<lambda>a. case a of None \<Rightarrow> [] | Some r \<Rightarrow> r)\<rparr>"

text \<open>The empty deployment at time 0.\<close>

definition start :: "(string \<times> int) list ctx" where
  "start = \<lparr>crons = [], scheduled = [], now = 0\<rparr>"

text \<open>After \<open>interval(ctx, 1000, work, {n: 1})\<close> at time 0.\<close>

definition registered_once :: "(string \<times> int) list ctx" where
  "registered_once = snd (interval example_env start 1000 ''work'' (Some [(''n'', 1)]))"

text \<open>After the first tick of that job, run at time 1000.\<close>

definition ticked_once :: "(string \<times> int) list ctx" where
  "ticked_once = snd (rescheduler example_env (registered_once\<lparr>now := 1000\<rparr>) 0)"

text \<open>After \<open>cronWithName(ctx, "nightly", "0 0 * * *", report)\<close> at time 0.\<close>

definition nightly :: "(string \<times> int) list ctx" where
  "nightly = snd (cronWithName example_env start ''nightly'' ''0 0 * * *'' ''report'' None)"

text \<open>After one, and after two, calls \<open>intervalWithName(ctx, "", 1000, work)\<close> at time 0.\<close>

definition one_blank :: "(string \<times> int) list ctx" where
  "one_blank = snd (intervalWithName example_env start [] 1000 ''work'' None)"

definition two_blank :: "(string \<times> int) list ctx" where
  "two_blank = snd (intervalWithName example_env one_blank [] 1000 ''work'' None)"

text \<open>
  The record of the job \<open>work\<close> with arguments \<open>{n: 1}\<close>, run every 1000 ms, with given
  \<open>schedulerJobId\<close> and \<open>executionJobId\<close>.
\<close>

definition work_job :: "nat option \<Rightarrow> nat option \<Rightarrow> (string \<times> int) list cronJob" where
  "work_job sid eid =
     \<lparr>functionName = ''work'', args = [(''n'', 1)], name = None, schedule = Interval 1000,
      schedulerJobId = sid, executionJobId = eid\<rparr>"

text \<open>
  A record whose \<open>executionJobId\<close> has been set, at its second tick: the first tick has
  succeeded and the function it started is still in progress.
\<close>

definition busy :: "(string \<times> int) list ctx" where
  "busy =
     \<lparr>crons = [Some (work_job (Some 2) (Some 1))],
      scheduled = [Some \<lparr>scheduledTime = 1000, call = Rescheduler 0, state = Success\<rparr>,
                   Some \<lparr>scheduledTime = 1000, call = Target ''work'' [(''n'', 1)],
                         state = InProgress\<rparr>,
                   Some \<lparr>scheduledTime = 2000, call = Rescheduler 0, state = Pending\<rparr>],
      now = 2000\<rparr>"

text \<open>The same, when the scheduled function that \<open>executionJobId\<close> names is gone.\<close>

definition lost :: "(string \<times> int) list ctx" where
  "lost =
     \<lparr>crons = [Some (work_job (Some 2) (Some 1))],
      scheduled = [Some \<lparr>scheduledTime = 1000, call = Rescheduler 0, state = Success\<rparr>,
                   None,
                   Some \<lparr>scheduledTime = 2000, call = Rescheduler 0, state = Pending\<rparr>],
      now = 2000\<rparr>"

text \<open>
  A record whose tick is delivered a second time, after it has succeeded, and a record
  whose \<open>schedulerJobId\<close> names no scheduled function.
\<close>

definition redelivered :: "(string \<times> int) list ctx" where
  "redelivered =
     \<lparr>crons = [Some (work_job (Some 0) None)],
      scheduled = [Some \<lparr>scheduledTime = 1000, call = Rescheduler 0, state = Success\<rparr>],
      now = 1000\<rparr>"

definition dangling :: "(string \<times> int) list ctx" where
  "dangling = \<lparr>crons = [Some (work_job (Some 5) None)], scheduled = [], now = 1000\<rparr>"

text \<open>A record that was inserted and never scheduled.\<close>

definition unscheduled :: "(string \<times> int) list ctx" where
  "unscheduled = \<lparr>crons = [Some (work_job None None)], scheduled = [], now = 0\<rparr>"

section \<open>Facts about the platform calls\<close>

lemmas run_defs =
  scheduleCron_def validate_def getByName_def unique_def with_name_def collect_def
  db_insert_def db_patch_def db_get_def db_delete_def runAfter_def runAt_def system_get_def
  cancel_def rescheduler_def stillRunning_def nextScheduledDate_def del_def delByName_def
  get_def interval_def intervalWithName_def cron_def cronWithName_def Let_def

lemma docs_from_append:
  "docs_from i (rows @ rows') = docs_from i rows @ docs_from (i + length rows) rows'"
  by (induction i rows rule: docs_from.induct) simp_all

lemma in_docs_from:
  "(j, d) \<in> set (docs_from i rows) \<longleftrightarrow> i \<le> j \<and> j - i < length rows \<and> rows ! (j - i) = Some d"
proof (induction i rows rule: docs_from.induct)
  case (1 i)
  show ?case by simp
next
  case (2 i rows)
  show ?case
  proof (cases "j = i")
    case True
    with 2 show ?thesis by simp
  next
    case False
    then have "(i \<le> j) = (Suc i \<le> j)" by auto
    moreover have "Suc i \<le> j \<Longrightarrow> j - i = Suc (j - Suc i)" by simp
    ultimately show ?thesis using 2 by auto
  qed
next
  case (3 i d' rows)
  show ?case
  proof (cases "j = i")
    case True
    with 3 show ?thesis by auto
  next
    case False
    then have "(i \<le> j) = (Suc i \<le> j)" by auto
    moreover have "Suc i \<le> j \<Longrightarrow> j - i = Suc (j - Suc i)" by simp
    ultimately show ?thesis using 3 False by auto
  qed
qed

lemma distinct_docs_from: "distinct (map fst (docs_from i rows))"
proof (induction i rows rule: docs_from.induct)
  case (3 i d rows)
  have "i \<notin> fst ` set (docs_from (Suc i) rows)"
    by (auto simp: in_docs_from)
  with 3 show ?case by simp
qed simp_all

lemma snd_docs_from: "map snd (docs_from i rows) = map the (filter (\<lambda>r. r \<noteq> None) rows)"
  by (induction i rows rule: docs_from.induct) simp_all

lemma now_update_simps [simp]:
  "db_get (s\<lparr>now := clock\<rparr>) i = db_get s i"
  "system_get (s\<lparr>now := clock\<rparr>) j = system_get s j"
  by (simp_all add: db_get_def system_get_def)

lemma runAt_simps [simp]:
  "fst (runAt s t c) = length (scheduled s)"
  "crons (snd (runAt s t c)) = crons s"
  "now (snd (runAt s t c)) = now s"
  "scheduled (snd (runAt s t c)) =
     scheduled s @ [Some \<lparr>scheduledTime = t, call = c, state = Pending\<rparr>]"
  by (simp_all add: runAt_def)

lemma db_get_runAt [simp]: "db_get (snd (runAt s t c)) i = db_get s i"
  by (simp add: db_get_def)

lemma system_get_append:
  "system_get s j = Some job \<Longrightarrow> scheduled s' = scheduled s @ rest \<Longrightarrow>
     system_get s' j = Some job"
  by (auto simp: system_get_def nth_append split: if_splits)

lemma system_get_last:
  "scheduled s' = rows @ [Some job] \<Longrightarrow> system_get s' (length rows) = Some job"
  by (simp add: system_get_def)

lemma db_patch_simps:
  "scheduled (snd (db_patch s i f)) = scheduled s"
  "now (snd (db_patch s i f)) = now s"
  "fst (db_patch s i f) = (if db_get s i = None then Inl DocumentMissing else Inr ())"
  "db_get (snd (db_patch s i f)) k = (if k = i then map_option f (db_get s i) else db_get s k)"
  by (auto simp: db_patch_def db_get_def split: option.splits)

lemma db_delete_simps:
  "scheduled (snd (db_delete s i)) = scheduled s"
  "now (snd (db_delete s i)) = now s"
  "fst (db_delete s i) = (if db_get s i = None then Inl DocumentMissing else Inr ())"
  "db_get (snd (db_delete s i)) k = (if k = i then None else db_get s k)"
  by (auto simp: db_delete_def db_get_def split: option.splits)

lemma cancel_simps [simp]:
  "crons (cancel s j) = crons s"
  "now (cancel s j) = now s"
  "length (scheduled (cancel s j)) = length (scheduled s)"
  "db_get (cancel s j) i = db_get s i"
  by (simp_all add: cancel_def db_get_def split: option.splits)

lemma system_get_cancel:
  "system_get (cancel s j) k =
     (if k = j
      then map_option
             (\<lambda>job. if state job = Pending \<or> state job = InProgress
                    then job\<lparr>state := Canceled\<rparr> else job)
             (system_get s j)
      else system_get s k)"
  by (simp add: cancel_def system_get_def split: option.splits)

lemma outstanding_cancel: "outstanding (cancel s j) k = (k \<noteq> j \<and> outstanding s k)"
  by (simp add: outstanding_def system_get_cancel split: option.splits)

lemma outstanding_db_delete [simp]: "outstanding (snd (db_delete s i)) j = outstanding s j"
  by (simp add: outstanding_def system_get_def db_delete_simps)

section \<open>Facts about lookup by name\<close>

lemma in_collect: "(i, d) \<in> set (collect s) \<longleftrightarrow> get s i = Some d"
  by (auto simp: collect_def in_docs_from get_def db_get_def)

lemma in_with_name: "(i, d) \<in> set (with_name s n) \<longleftrightarrow> get s i = Some d \<and> name d = Some n"
  by (auto simp: with_name_def in_collect)

lemma distinct_with_name: "distinct (map fst (with_name s n))"
  unfolding with_name_def collect_def
  by (rule distinct_map_filter) (rule distinct_docs_from)

lemma with_name_empty:
  "with_name s n = [] \<longleftrightarrow> (\<forall>i d. get s i = Some d \<longrightarrow> name d \<noteq> Some n)"
proof -
  have "with_name s n = [] \<longleftrightarrow> (\<forall>i d. (i, d) \<notin> set (with_name s n))"
    by (cases "with_name s n") auto
  then show ?thesis
    by (simp add: in_with_name)
qed

lemma with_name_single:
  assumes "get s i = Some d" and "name d = Some n"
    and "\<forall>i' d'. get s i' = Some d' \<and> name d' = Some n \<longrightarrow> i' = i"
  shows "with_name s n = [(i, d)]"
proof -
  have mem: "(i, d) \<in> set (with_name s n)"
    using assms(1,2) by (simp add: in_with_name)
  have only: "x = (i, d)" if "x \<in> set (with_name s n)" for x
  proof -
    obtain i' d' where x: "x = (i', d')" by (cases x)
    with that have g: "get s i' = Some d'" "name d' = Some n"
      by (simp_all add: in_with_name)
    with assms(3) have "i' = i" by blast
    with g assms(1) x show ?thesis by simp
  qed
  have d: "distinct (with_name s n)"
    using distinct_with_name [of s n] by (rule distinct_map [THEN iffD1, THEN conjunct1])
  show ?thesis
  proof (cases "with_name s n")
    case Nil
    with mem show ?thesis by simp
  next
    case (Cons x xs)
    have "x = (i, d)" using only Cons by simp
    moreover have "xs = []"
    proof (cases xs)
      case (Cons y ys)
      then have "y = (i, d)" using only \<open>with_name s n = x # xs\<close> by simp
      with \<open>x = (i, d)\<close> d \<open>with_name s n = x # xs\<close> Cons show ?thesis by simp
    qed simp
    ultimately show ?thesis using Cons by simp
  qed
qed

lemma in_names: "Some n \<in> set (names s) \<longleftrightarrow> with_name s n \<noteq> []"
  by (force simp: names_def with_name_def filter_empty_conv)

lemma distinct_filter_map:
  "distinct (filter P (map f xs)) \<Longrightarrow> P y \<Longrightarrow> length (filter (\<lambda>x. f x = y) xs) \<le> 1"
proof (induction xs)
  case Nil
  then show ?case by simp
next
  case (Cons x xs)
  show ?case
  proof (cases "f x = y")
    case True
    with Cons.prems have "y \<notin> set (map f xs)"
      by auto
    then have "filter (\<lambda>x. f x = y) xs = []"
      by (auto simp: filter_empty_conv)
    with True show ?thesis by simp
  next
    case False
    with Cons show ?thesis
      by (simp split: if_splits)
  qed
qed

lemma names_unique_with_name:
  assumes "names_unique s" and "n \<noteq> []"
  shows "length (with_name s n) \<le> 1"
  using assms unfolding names_unique_def names_def with_name_def
  by (intro distinct_filter_map [where P = "\<lambda>nm. nm \<noteq> None \<and> nm \<noteq> Some []"]) simp_all

lemma getByName_unique:
  assumes "names_unique s" and "n \<noteq> []"
  shows "getByName s n = (case with_name s n of [] \<Rightarrow> Inr None | x # xs \<Rightarrow> Inr (Some x))"
  using names_unique_with_name [OF assms]
  by (cases "with_name s n"; cases "tl (with_name s n)") (auto simp: getByName_def unique_def)

lemma name_taken_iff:
  "name_taken s nm \<longleftrightarrow>
     (\<exists>n i d. nm = Some n \<and> n \<noteq> [] \<and> get s i = Some d \<and> name d = Some n)"
proof -
  have "with_name s n \<noteq> [] \<longleftrightarrow> (\<exists>i d. get s i = Some d \<and> name d = Some n)" for n
    by (simp add: with_name_empty)
  then show ?thesis
    by (cases nm) (auto simp: name_taken_def in_names)
qed

section \<open>Registration\<close>

lemma validate_Cron:
  "validate e s (Cron cronspec) nm = Inr u \<Longrightarrow> parseExpression e cronspec"
  by (auto simp: validate_def split: option.splits sum.splits if_splits bool.splits)

text \<open>
  A registration either fails in its validation, before any write, or succeeds: after the
  validation nothing can throw, since the record patched is the one just inserted and the
  expression handed to \<open>nextScheduledDate\<close> is one the parser has accepted.
\<close>

lemma scheduleCron_eq:
  "scheduleCron e s sched func nm a =
     (case validate e s sched nm of
        Inl err \<Rightarrow> (Inl err, s)
      | Inr u \<Rightarrow> (Inr (length (crons s)), registered e s sched func nm a))"
proof (cases "validate e s sched nm")
  case (Inl err)
  then show ?thesis by (simp add: scheduleCron_def)
next
  case (Inr u)
  show ?thesis
  proof (cases sched)
    case (Interval ms)
    with Inr show ?thesis
      by (simp add: scheduleCron_def registered_def first_fire_def db_insert_def runAfter_def
          runAt_def db_patch_def db_get_def Let_def)
  next
    case (Cron cronspec)
    with Inr have "parseExpression e cronspec"
      by (simp add: validate_Cron)
    with Inr Cron show ?thesis
      by (simp add: scheduleCron_def registered_def first_fire_def db_insert_def
          nextScheduledDate_def runAt_def db_patch_def db_get_def Let_def)
  qed
qed

lemma validate_eq:
  assumes "names_unique s"
  shows "validate e s sched nm =
     (if name_taken s nm then Inl DuplicateName
      else (case sched of
              Interval ms \<Rightarrow> if ms < 1000 then Inl InvalidInterval else Inr ()
            | Cron cronspec \<Rightarrow>
                if parseExpression e cronspec then Inr () else Inl InvalidCronSpec))"
proof (cases nm)
  case None
  then show ?thesis by (simp add: validate_def name_taken_def)
next
  case (Some n)
  show ?thesis
  proof (cases "n = []")
    case True
    with Some show ?thesis by (simp add: validate_def name_taken_def)
  next
    case False
    note g = getByName_unique [OF assms False]
    show ?thesis
      using Some False
      by (cases "with_name s n") (simp_all add: validate_def name_taken_def in_names g)
  qed
qed

lemma names_registered: "names (registered e s sched func nm a) = names s @ [nm]"
  by (simp add: names_def collect_def registered_def docs_from_append)

text \<open>Registration keeps the names unique, so that the invariant holds wherever only this
  module writes the table.\<close>

lemma names_unique_start: "names_unique \<lparr>crons = [], scheduled = [], now = t\<rparr>"
  by (simp add: names_unique_def names_def collect_def)

lemma names_unique_scheduleCron:
  assumes "names_unique s"
  shows "names_unique (snd (scheduleCron e s sched func nm a))"
proof (cases "validate e s sched nm")
  case (Inl err)
  with assms show ?thesis by (simp add: scheduleCron_eq)
next
  case (Inr u)
  then have "\<not> name_taken s nm"
    by (simp add: validate_eq [OF assms] split: if_splits)
  with assms have "names_unique (registered e s sched func nm a)"
    by (auto simp: names_unique_def names_registered name_taken_def split: option.splits)
  with Inr show ?thesis by (simp add: scheduleCron_eq)
qed

lemma registered_once_eq:
  "registered_once =
     \<lparr>crons = [Some \<lparr>functionName = ''work'', args = [(''n'', 1)], name = None,
                      schedule = Interval 1000, schedulerJobId = Some 0,
                      executionJobId = None\<rparr>],
      scheduled = [Some \<lparr>scheduledTime = 1000, call = Rescheduler 0, state = Pending\<rparr>],
      now = 0\<rparr>"
  by (simp add: registered_once_def example_env_def start_def run_defs)

lemma nightly_eq:
  "nightly =
     \<lparr>crons = [Some \<lparr>functionName = ''report'', args = [], name = Some ''nightly'',
                      schedule = Cron ''0 0 * * *'', schedulerJobId = Some 0,
                      executionJobId = None\<rparr>],
      scheduled = [Some \<lparr>scheduledTime = 86400000, call = Rescheduler 0, state = Pending\<rparr>],
      now = 0\<rparr>"
  by (simp add: nightly_def example_env_def start_def run_defs)

lemma one_blank_eq:
  "one_blank =
     \<lparr>crons = [Some \<lparr>functionName = ''work'', args = [], name = Some [],
                      schedule = Interval 1000, schedulerJobId = Some 0,
                      executionJobId = None\<rparr>],
      scheduled = [Some \<lparr>scheduledTime = 1000, call = Rescheduler 0, state = Pending\<rparr>],
      now = 0\<rparr>"
  by (simp add: one_blank_def example_env_def start_def run_defs)

lemma two_blank_eq:
  "two_blank =
     \<lparr>crons = [Some \<lparr>functionName = ''work'', args = [], name = Some [],
                      schedule = Interval 1000, schedulerJobId = Some 0,
                      executionJobId = None\<rparr>,
               Some \<lparr>functionName = ''work'', args = [], name = Some [],
                      schedule = Interval 1000, schedulerJobId = Some 1,
                      executionJobId = None\<rparr>],
      scheduled = [Some \<lparr>scheduledTime = 1000, call = Rescheduler 0, state = Pending\<rparr>,
                   Some \<lparr>scheduledTime = 1000, call = Rescheduler 1, state = Pending\<rparr>],
      now = 0\<rparr>"
  by (simp add: two_blank_def one_blank_eq example_env_def run_defs)

text \<open>
  Claim C4 says that registration raises \<open>DuplicateName\<close> when a name is given and a record
  with that name already exists, as the documentation of \<open>cronWithName\<close> and
  \<open>intervalWithName\<close> promises ("will throw an error if a cron job with the same name
  already exists"). The code does not when the name is the empty string. After
  \<open>intervalWithName(ctx, "", 1000, work)\<close> the record 0 is stored under the name \<open>""\<close> and
  the lookup by name finds it; the same call made again does not throw: it returns the new
  id 1.
\<close>

theorem blank_name_registered_again:
  "getByName one_blank [] =
     Inr (Some (0, \<lparr>functionName = ''work'', args = [], name = Some [],
                     schedule = Interval 1000, schedulerJobId = Some 0,
                     executionJobId = None\<rparr>)) \<and>
   fst (intervalWithName example_env one_blank [] 1000 ''work'' None) = Inr 1 \<and>
   fst (scheduleCron example_env one_blank (Interval 1000) ''work'' (Some []) None) = Inr 1"
  by (simp add: one_blank_eq example_env_def run_defs)

lemma validate_unnamed:
  "validate e s sched None =
     (if accepted e sched then Inr ()
      else Inl (case sched of Interval ms \<Rightarrow> InvalidInterval | Cron cronspec \<Rightarrow> InvalidCronSpec))"
  by (simp add: validate_def accepted_def split: schedule.splits)

lemma with_name_registered:
  "with_name (registered e s sched func (Some n) a) n =
     with_name s n @
     [(length (crons s),
       \<lparr>functionName = func, args = parseArgs e a, name = Some n, schedule = sched,
        schedulerJobId = Some (length (scheduled s)), executionJobId = None\<rparr>)]"
  by (simp add: with_name_def collect_def registered_def docs_from_append)

lemma register_blank_count:
  "accepted e sched \<Longrightarrow>
     length (with_name (register_blank e s sched func a n) []) = length (with_name s []) + n"
proof (induction n arbitrary: s)
  case 0
  show ?case by simp
next
  case (Suc n)
  have "validate e s sched (Some []) = validate e s sched None"
    by (simp add: validate_def)
  with Suc.prems have v: "validate e s sched (Some []) = Inr ()"
    by (simp add: validate_unnamed)
  have "snd (scheduleCron e s sched func (Some []) a) = registered e s sched func (Some []) a"
    by (simp add: scheduleCron_eq v)
  with Suc.IH [OF Suc.prems, of "registered e s sched func (Some []) a"] show ?case
    by (simp add: with_name_registered)
qed

text \<open>
  Claim C9: registration with the empty string as name skips the duplicate-name check. It
  is validated exactly as a registration with no name and never fails with
  \<open>DuplicateName\<close>, whatever records exist. Whenever the schedule is one that validation
  accepts, the registration succeeds and returns the new id, in any context, also one
  that already holds records named \<open>""\<close>: afterwards the records named \<open>""\<close> are those
  that were there and the new one. So any number of them coexist: \<open>n\<close> such
  registrations in a row leave \<open>n\<close> more records named \<open>""\<close>, for every \<open>n\<close>.
\<close>

theorem blank_name_not_checked:
  "validate e s sched (Some []) = validate e s sched None \<and>
   fst (scheduleCron e s sched func (Some []) a) \<noteq> Inl DuplicateName \<and>
   (accepted e sched \<longrightarrow>
      fst (scheduleCron e s sched func (Some []) a) = Inr (length (crons s)) \<and>
      map fst (with_name (snd (scheduleCron e s sched func (Some []) a)) []) =
        map fst (with_name s []) @ [length (crons s)] \<and>
      (\<forall>n. length (with_name (register_blank e s sched func a n) []) =
            length (with_name s []) + n))"
proof -
  have v: "validate e s sched (Some []) = validate e s sched None"
    by (simp add: validate_def)
  have nd: "fst (scheduleCron e s sched func (Some []) a) \<noteq> Inl DuplicateName"
    by (simp add: scheduleCron_eq v validate_unnamed split: schedule.splits)
  have ok: "scheduleCron e s sched func (Some []) a =
      (Inr (length (crons s)), registered e s sched func (Some []) a)"
    if "accepted e sched"
    using that by (simp add: scheduleCron_eq v validate_unnamed)
  show ?thesis
    using v nd by (simp add: ok with_name_registered register_blank_count)
qed

theorem blank_name_not_checked_witness:
  "accepted example_env (Interval 1000) \<and>
   map fst (with_name one_blank []) = [0] \<and>
   fst (scheduleCron example_env one_blank (Interval 1000) ''work'' (Some []) None) = Inr 1 \<and>
   map fst (with_name two_blank []) = [0, 1] \<and>
   length (with_name (register_blank example_env start (Interval 1000) ''work'' None 3) []) = 3"
proof -
  have a: "accepted example_env (Interval 1000)"
    by (simp add: accepted_def)
  have one: "map fst (with_name one_blank []) = [0]" and len: "length (crons one_blank) = 1"
    by (simp_all add: with_name_def collect_def one_blank_eq)
  have two: "two_blank =
      snd (scheduleCron example_env one_blank (Interval 1000) ''work'' (Some []) None)"
    by (simp add: two_blank_def intervalWithName_def)
  have none: "with_name start [] = []"
    by (simp add: with_name_def collect_def start_def)
  from blank_name_not_checked [of example_env one_blank "Interval 1000" "''work''" None] a
  have "fst (scheduleCron example_env one_blank (Interval 1000) ''work'' (Some []) None) =
      Inr (length (crons one_blank))"
    and "map fst (with_name two_blank []) =
      map fst (with_name one_blank []) @ [length (crons one_blank)]"
    unfolding two by blast+
  moreover
  from blank_name_not_checked [of example_env start "Interval 1000" "''work''" None] a
  have "length (with_name (register_blank example_env start (Interval 1000) ''work'' None 3) []) =
      length (with_name start []) + 3"
    by blast
  ultimately show ?thesis
    using a one len none by simp
qed

section \<open>The rescheduler\<close>

text \<open>The four checks that open a tick, each throwing before anything is written.\<close>

lemma rescheduler_raises:
  "db_get s cronJobId = None \<Longrightarrow> rescheduler e s cronJobId = (Inl JobNotFound, s)"
  "db_get s cronJobId = Some cronJob \<Longrightarrow> schedulerJobId cronJob = None \<Longrightarrow>
     rescheduler e s cronJobId = (Inl NotScheduled, s)"
  "db_get s cronJobId = Some cronJob \<Longrightarrow> schedulerJobId cronJob = Some sid \<Longrightarrow>
     system_get s sid = None \<Longrightarrow> rescheduler e s cronJobId = (Inl ScheduledJobNotFound, s)"
  "db_get s cronJobId = Some cronJob \<Longrightarrow> schedulerJobId cronJob = Some sid \<Longrightarrow>
     system_get s sid = Some schedulerJob \<Longrightarrow>
     state schedulerJob \<noteq> Pending \<Longrightarrow> state schedulerJob \<noteq> InProgress \<Longrightarrow>
     rescheduler e s cronJobId = (Inl (UnexpectedState (state schedulerJob)), s)"
  by (simp_all add: rescheduler_def)

text \<open>A tick that has passed the checks dispatches, computes the next time and re-arms.\<close>

lemma rescheduler_checked:
  assumes "db_get s cronJobId = Some cronJob"
    and "schedulerJobId cronJob = Some sid"
    and "system_get s sid = Some schedulerJob"
    and "state schedulerJob = Pending \<or> state schedulerJob = InProgress"
  shows "rescheduler e s cronJobId =
     (case next_fire e (scheduledTime schedulerJob) (schedule cronJob) of
        Inl err \<Rightarrow> (Inl err, dispatch s cronJob)
      | Inr t \<Rightarrow> rearm (dispatch s cronJob) cronJobId t)"
  using assms
  by (auto simp: rescheduler_def next_fire_def rearm_def dispatch_def Let_def runAt_def
      split: schedule.splits sum.splits)

lemma next_fire_ok: "schedule_ok e sched \<Longrightarrow> \<exists>t'. next_fire e t sched = Inr t'"
  by (auto simp: schedule_ok_def next_fire_def nextScheduledDate_def split: schedule.splits)

lemma next_fire_error: "next_fire e t sched = Inl err \<Longrightarrow> err = ParserError"
  by (auto simp: next_fire_def nextScheduledDate_def split: schedule.splits if_splits)

lemma dispatch_simps [simp]:
  "crons (dispatch s c) = crons s"
  "now (dispatch s c) = now s"
  "db_get (dispatch s c) i = db_get s i"
  by (simp_all add: dispatch_def runAfter_def)

lemma scheduled_dispatch:
  "scheduled (dispatch s c) =
     scheduled s @
     (if stillRunning s c then []
      else [Some \<lparr>scheduledTime = now s, call = Target (functionName c) (args c),
                  state = Pending\<rparr>])"
  by (simp add: dispatch_def runAfter_def)

lemma rearm_simps:
  "db_get s i = Some c \<Longrightarrow> fst (rearm s i t) = Inr ()"
  "scheduled (snd (rearm s i t)) =
     scheduled s @ [Some \<lparr>scheduledTime = t, call = Rescheduler i, state = Pending\<rparr>]"
  "now (snd (rearm s i t)) = now s"
  "db_get (snd (rearm s i t)) k =
     (if k = i
      then map_option (\<lambda>d. d\<lparr>schedulerJobId := Some (length (scheduled s))\<rparr>) (db_get s i)
      else db_get s k)"
  by (simp_all add: rearm_def db_patch_simps)

lemma dispatches_dispatch:
  "dispatches (dispatch s c) =
     dispatches s @
     (if stillRunning s c then []
      else [(length (scheduled s),
             \<lparr>scheduledTime = now s, call = Target (functionName c) (args c),
              state = Pending\<rparr>)])"
  by (simp add: dispatches_def scheduled_dispatch docs_from_append)

lemma dispatches_rearm [simp]: "dispatches (snd (rearm s i t)) = dispatches s"
  by (simp add: dispatches_def rearm_simps docs_from_append)

lemma ticks_of_dispatch [simp]: "ticks_of (dispatch s c) k = ticks_of s k"
  by (simp add: ticks_of_def scheduled_dispatch docs_from_append)

lemma ticks_of_rearm:
  "ticks_of (snd (rearm s i t)) k =
     ticks_of s k @
     (if k = i
      then [(length (scheduled s),
             \<lparr>scheduledTime = t, call = Rescheduler i, state = Pending\<rparr>)]
      else [])"
  by (simp add: ticks_of_def rearm_simps docs_from_append)

text \<open>What a tick that returns has gone through.\<close>

lemma rescheduler_succeeds:
  assumes "fst (rescheduler e s cronJobId) = Inr ()"
  shows "\<exists>cronJob sid schedulerJob t.
           db_get s cronJobId = Some cronJob \<and>
           schedulerJobId cronJob = Some sid \<and>
           system_get s sid = Some schedulerJob \<and>
           (state schedulerJob = Pending \<or> state schedulerJob = InProgress) \<and>
           next_fire e (scheduledTime schedulerJob) (schedule cronJob) = Inr t \<and>
           rescheduler e s cronJobId = rearm (dispatch s cronJob) cronJobId t"
proof (cases "db_get s cronJobId")
  case None
  with assms show ?thesis by (simp add: rescheduler_raises(1))
next
  case (Some cronJob)
  note c = this
  show ?thesis
  proof (cases "schedulerJobId cronJob")
    case None
    with assms c show ?thesis by (simp add: rescheduler_raises(2))
  next
    case (Some sid)
    note sid = this
    show ?thesis
    proof (cases "system_get s sid")
      case None
      with assms c sid show ?thesis by (simp add: rescheduler_raises(3))
    next
      case (Some schedulerJob)
      note j = this
      show ?thesis
      proof (cases "state schedulerJob = Pending \<or> state schedulerJob = InProgress")
        case False
        with assms c sid j show ?thesis by (simp add: rescheduler_raises(4))
      next
        case True
        note eq = rescheduler_checked [OF c sid j True, of e]
        show ?thesis
        proof (cases "next_fire e (scheduledTime schedulerJob) (schedule cronJob)")
          case (Inl err)
          with assms eq show ?thesis by simp
        next
          case (Inr t)
          with eq have "rescheduler e s cronJobId = rearm (dispatch s cronJob) cronJobId t"
            by simp
          with c sid j True Inr show ?thesis by blast
        qed
      qed
    qed
  qed
qed

text \<open>The context a tick returns, whether it throws or not.\<close>

lemma rescheduler_cases:
  "snd (rescheduler e s cronJobId) = s \<or>
   (\<exists>cronJob. db_get s cronJobId = Some cronJob \<and>
      snd (rescheduler e s cronJobId) = dispatch s cronJob) \<or>
   (\<exists>cronJob t. db_get s cronJobId = Some cronJob \<and>
      snd (rescheduler e s cronJobId) = snd (rearm (dispatch s cronJob) cronJobId t))"
proof (cases "db_get s cronJobId")
  case None
  then show ?thesis by (simp add: rescheduler_raises(1))
next
  case (Some cronJob)
  note c = this
  show ?thesis
  proof (cases "schedulerJobId cronJob")
    case None
    with c show ?thesis by (simp add: rescheduler_raises(2))
  next
    case (Some sid)
    note sid = this
    show ?thesis
    proof (cases "system_get s sid")
      case None
      with c sid show ?thesis by (simp add: rescheduler_raises(3))
    next
      case (Some schedulerJob)
      note j = this
      show ?thesis
      proof (cases "state schedulerJob = Pending \<or> state schedulerJob = InProgress")
        case False
        with c sid j show ?thesis by (simp add: rescheduler_raises(4))
      next
        case True
        show ?thesis
          unfolding rescheduler_checked [OF c sid j True]
          using c by (cases "next_fire e (scheduledTime schedulerJob) (schedule cronJob)") auto
      qed
    qed
  qed
qed

text \<open>
  No tick writes \<open>executionJobId\<close>: whatever the tick does, every record keeps the value
  it had. Registration creates the field absent, so that in a table that only this module
  writes, no record ever has it.
\<close>

lemma rescheduler_keeps_executionJobId:
  "map_option executionJobId (db_get (snd (rescheduler e s cronJobId)) k) =
   map_option executionJobId (db_get s k)"
  using rescheduler_cases [of e s cronJobId]
  by (auto simp: rearm_simps option.map_comp o_def)

text \<open>
  Claim C6: at tick entry, once the record is loaded, the rescheduler looks up the
  scheduled function that the record's \<open>schedulerJobId\<close> names, the one running this very
  tick. When it does not exist, or its state is anything other than pending or in
  progress, the tick throws, having written nothing; when its state is pending or in
  progress, this check lets the tick continue.
\<close>

theorem tick_integrity:
  assumes "db_get s cronJobId = Some cronJob"
    and "schedulerJobId cronJob = Some sid"
  shows "(system_get s sid = None \<longrightarrow>
            rescheduler e s cronJobId = (Inl ScheduledJobNotFound, s)) \<and>
         (\<forall>job. system_get s sid = Some job \<and> state job \<noteq> Pending \<and> state job \<noteq> InProgress \<longrightarrow>
            rescheduler e s cronJobId = (Inl (UnexpectedState (state job)), s)) \<and>
         (\<forall>job. system_get s sid = Some job \<and> (state job = Pending \<or> state job = InProgress) \<longrightarrow>
            fst (rescheduler e s cronJobId) \<noteq> Inl ScheduledJobNotFound \<and>
            (\<forall>st. fst (rescheduler e s cronJobId) \<noteq> Inl (UnexpectedState st)))"
proof (intro conjI allI impI)
  assume "system_get s sid = None"
  with assms show "rescheduler e s cronJobId = (Inl ScheduledJobNotFound, s)"
    by (rule rescheduler_raises(3))
next
  fix job
  assume "system_get s sid = Some job \<and> state job \<noteq> Pending \<and> state job \<noteq> InProgress"
  with assms show "rescheduler e s cronJobId = (Inl (UnexpectedState (state job)), s)"
    by (simp add: rescheduler_raises(4))
next
  fix job
  assume j: "system_get s sid = Some job \<and> (state job = Pending \<or> state job = InProgress)"
  then have eq: "rescheduler e s cronJobId =
     (case next_fire e (scheduledTime job) (schedule cronJob) of
        Inl err \<Rightarrow> (Inl err, dispatch s cronJob)
      | Inr t \<Rightarrow> rearm (dispatch s cronJob) cronJobId t)"
    using assms by (intro rescheduler_checked) auto
  have ok: "fst (rearm (dispatch s cronJob) cronJobId t) = Inr ()" for t
    using assms(1) by (simp add: rearm_simps(1))
  show "fst (rescheduler e s cronJobId) \<noteq> Inl ScheduledJobNotFound"
    using ok by (auto simp: eq split: sum.splits dest: next_fire_error)
  fix st
  show "fst (rescheduler e s cronJobId) \<noteq> Inl (UnexpectedState st)"
    using ok by (auto simp: eq split: sum.splits dest: next_fire_error)
qed

theorem tick_integrity_witness:
  "rescheduler example_env redelivered 0 = (Inl (UnexpectedState Success), redelivered) \<and>
   rescheduler example_env dangling 0 = (Inl ScheduledJobNotFound, dangling) \<and>
   fst (rescheduler example_env (registered_once\<lparr>now := 1000\<rparr>) 0) \<noteq> Inl ScheduledJobNotFound"
proof -
  have r: "db_get redelivered 0 = Some (work_job (Some 0) None)"
    and d: "db_get dangling 0 = Some (work_job (Some 5) None)"
    and o: "db_get (registered_once\<lparr>now := 1000\<rparr>) 0 = Some (work_job (Some 0) None)"
    by (simp_all add: db_get_def redelivered_def dangling_def registered_once_eq work_job_def)
  have sid: "schedulerJobId (work_job (Some j) None) = Some j" for j
    by (simp add: work_job_def)
  show ?thesis
    using tick_integrity [OF r sid, of example_env]
      tick_integrity [OF d sid, of example_env]
      tick_integrity [OF o sid, of example_env]
    by (simp add: system_get_def redelivered_def dangling_def registered_once_eq)
qed

text \<open>
  Claim C2: when the record's \<open>executionJobId\<close> is set and the scheduled function it names
  is pending or in progress, the tick schedules no call of the cron's function (the list of
  such calls is the same in the context the tick returns, whether it throws or not), and
  the record's \<open>executionJobId\<close> is the same after the tick.
\<close>

theorem overlap_suppressed:
  assumes "db_get s cronJobId = Some cronJob"
    and "executionJobId cronJob = Some eid"
    and "system_get s eid = Some executionJob"
    and "state executionJob = Pending \<or> state executionJob = InProgress"
  shows "dispatches (snd (rescheduler e s cronJobId)) = dispatches s \<and>
         map_option executionJobId (db_get (snd (rescheduler e s cronJobId)) cronJobId) =
           Some (Some eid)"
proof -
  have "stillRunning s cronJob"
    using assms(2-4) by (simp add: stillRunning_def)
  then have same: "dispatch s cronJob = s"
    by (simp add: dispatch_def)
  have "dispatches (snd (rescheduler e s cronJobId)) = dispatches s"
    using rescheduler_cases [of e s cronJobId] assms(1) same by auto
  moreover have "map_option executionJobId (db_get (snd (rescheduler e s cronJobId)) cronJobId) =
      Some (Some eid)"
    using assms(1,2) by (simp add: rescheduler_keeps_executionJobId)
  ultimately show ?thesis ..
qed

theorem overlap_suppressed_witness:
  "db_get busy 0 = Some (work_job (Some 2) (Some 1)) \<and>
   map_option state (system_get busy 1) = Some InProgress \<and>
   fst (rescheduler example_env busy 0) = Inr () \<and>
   dispatches (snd (rescheduler example_env busy 0)) =
     [(1, \<lparr>scheduledTime = 1000, call = Target ''work'' [(''n'', 1)], state = InProgress\<rparr>)] \<and>
   map_option executionJobId (db_get (snd (rescheduler example_env busy 0)) 0) = Some (Some 1)"
proof -
  have c: "db_get busy 0 = Some (work_job (Some 2) (Some 1))"
    by (simp add: db_get_def busy_def)
  have eid: "executionJobId (work_job (Some 2) (Some 1)) = Some 1"
    by (simp add: work_job_def)
  have j: "system_get busy 1 =
      Some \<lparr>scheduledTime = 1000, call = Target ''work'' [(''n'', 1)], state = InProgress\<rparr>"
    by (simp add: system_get_def busy_def)
  have st: "state \<lparr>scheduledTime = 1000, call = Target ''work'' [(''n'', 1)], state = InProgress\<rparr> = Pending \<or>
      state \<lparr>scheduledTime = 1000, call = Target ''work'' [(''n'', 1)], state = InProgress\<rparr> = InProgress"
    by simp
  have d: "dispatches busy =
      [(1, \<lparr>scheduledTime = 1000, call = Target ''work'' [(''n'', 1)], state = InProgress\<rparr>)]"
    by (simp add: dispatches_def busy_def)
  have ok: "fst (rescheduler example_env busy 0) = Inr ()"
    by (simp add: busy_def work_job_def run_defs)
  show ?thesis
    using overlap_suppressed [OF c eid j st, of example_env] c j d ok by simp
qed

text \<open>
  Claim C10: when the record's \<open>executionJobId\<close> is set and no scheduled function has that
  id, a tick that has passed its checks (the scheduled function running it is pending or in
  progress, and the next fire time of the schedule can be computed, as it can for every
  registered schedule) takes the previous run as finished: it returns without error and has
  scheduled one more call of the cron's function, with the record's arguments, at the
  current time.
\<close>

theorem lost_execution_job_dispatches:
  assumes "db_get s cronJobId = Some cronJob"
    and "schedulerJobId cronJob = Some sid"
    and "system_get s sid = Some schedulerJob"
    and "state schedulerJob = Pending \<or> state schedulerJob = InProgress"
    and "schedule_ok e (schedule cronJob)"
    and "executionJobId cronJob = Some eid"
    and "system_get s eid = None"
  shows "fst (rescheduler e s cronJobId) = Inr () \<and>
         dispatches (snd (rescheduler e s cronJobId)) =
           dispatches s @
           [(length (scheduled s),
             \<lparr>scheduledTime = now s, call = Target (functionName cronJob) (args cronJob),
              state = Pending\<rparr>)]"
proof -
  have sr: "\<not> stillRunning s cronJob"
    using assms(6,7) by (simp add: stillRunning_def)
  obtain t where t: "next_fire e (scheduledTime schedulerJob) (schedule cronJob) = Inr t"
    using next_fire_ok [OF assms(5)] by blast
  have eq: "rescheduler e s cronJobId = rearm (dispatch s cronJob) cronJobId t"
    using rescheduler_checked [OF assms(1-4), of e] t by simp
  show ?thesis
    using assms(1) sr by (simp add: eq rearm_simps(1) dispatches_dispatch)
qed

theorem lost_execution_job_dispatches_witness:
  "db_get lost 0 = Some (work_job (Some 2) (Some 1)) \<and>
   system_get lost 1 = None \<and>
   fst (rescheduler example_env lost 0) = Inr () \<and>
   dispatches (snd (rescheduler example_env lost 0)) =
     [(3, \<lparr>scheduledTime = 2000, call = Target ''work'' [(''n'', 1)], state = Pending\<rparr>)]"
proof -
  have c: "db_get lost 0 = Some (work_job (Some 2) (Some 1))"
    by (simp add: db_get_def lost_def)
  have sid: "schedulerJobId (work_job (Some 2) (Some 1)) = Some 2"
    and eid: "executionJobId (work_job (Some 2) (Some 1)) = Some 1"
    and ok: "schedule_ok example_env (schedule (work_job (Some 2) (Some 1)))"
    by (simp_all add: work_job_def schedule_ok_def)
  have j: "system_get lost 2 =
      Some \<lparr>scheduledTime = 2000, call = Rescheduler 0, state = Pending\<rparr>"
    and gone: "system_get lost 1 = None"
    by (simp_all add: system_get_def lost_def)
  have st: "state \<lparr>scheduledTime = 2000, call = Rescheduler 0 :: (string \<times> int) list call,
      state = Pending\<rparr> = Pending \<or>
      state \<lparr>scheduledTime = 2000, call = Rescheduler 0 :: (string \<times> int) list call,
      state = Pending\<rparr> = InProgress"
    by simp
  have d: "dispatches lost = []"
    by (simp add: dispatches_def lost_def)
  show ?thesis
    using lost_execution_job_dispatches [OF c sid j st ok eid gone] c gone d
    by (simp add: lost_def work_job_def)
qed

text \<open>
  Claim C1 says that, when a tick dispatches, the handle returned by the scheduling call
  becomes the record's new \<open>executionJobId\<close>, patched together with \<open>schedulerJobId\<close>.
  The code schedules the call and drops the handle. In the first tick of the job
  registered by \<open>interval(ctx, 1000, work, {n: 1})\<close>, run at time 1000, the cron's function
  is scheduled at once with the job's arguments, as scheduled function 1, and the next tick
  as scheduled function 2; the patch sets \<open>schedulerJobId\<close> to 2 and leaves
  \<open>executionJobId\<close> absent.
\<close>

theorem dispatch_handle_dropped:
  "rescheduler example_env (registered_once\<lparr>now := 1000\<rparr>) 0 =
     (Inr (),
      \<lparr>crons = [Some (work_job (Some 2) None)],
       scheduled = [Some \<lparr>scheduledTime = 1000, call = Rescheduler 0, state = Pending\<rparr>,
                    Some \<lparr>scheduledTime = 1000, call = Target ''work'' [(''n'', 1)],
                          state = Pending\<rparr>,
                    Some \<lparr>scheduledTime = 2000, call = Rescheduler 0, state = Pending\<rparr>],
       now = 1000\<rparr>)"
  by (simp add: registered_once_eq work_job_def run_defs)

lemma ticked_once_eq:
  "ticked_once =
     \<lparr>crons = [Some (work_job (Some 2) None)],
      scheduled = [Some \<lparr>scheduledTime = 1000, call = Rescheduler 0, state = Pending\<rparr>,
                   Some \<lparr>scheduledTime = 1000, call = Target ''work'' [(''n'', 1)],
                         state = Pending\<rparr>,
                   Some \<lparr>scheduledTime = 2000, call = Rescheduler 0, state = Pending\<rparr>],
      now = 1000\<rparr>"
  by (simp add: ticked_once_def registered_once_eq work_job_def run_defs)

text \<open>
  What follows from the dropped handle: at the second tick, at time 2000, the call
  scheduled by the first tick is still pending, and the tick schedules the cron's function
  again, as scheduled function 3.
\<close>

lemma second_tick_dispatches_again:
  "map_option state (system_get ticked_once 1) = Some Pending \<and>
   map fst (dispatches (snd (rescheduler example_env (ticked_once\<lparr>now := 2000\<rparr>) 0))) = [1, 3]"
  by (simp add: ticked_once_eq work_job_def dispatches_def run_defs)

text \<open>
  Claim C8: a tick that does not throw schedules exactly one new tick, for the same cron
  job, at the time computed from the scheduled time of the tick that is running, and
  patches the record's \<open>schedulerJobId\<close> to the new handle. This holds whether the cron's
  function was dispatched (the handle is then the second new scheduled function) or
  skipped (the first). No other job gets a tick and no other record changes. After the
  tick the job is armed: its record names a pending tick of this job; and every job that
  was armed before the tick still is.
\<close>

theorem tick_rearms:
  assumes "fst (rescheduler e s cronJobId) = Inr ()"
  shows "(\<exists>cronJob job t.
            db_get s cronJobId = Some cronJob \<and>
            pendingTick s cronJobId = Some job \<and>
            next_fire e (scheduledTime job) (schedule cronJob) = Inr t \<and>
            ticks_of (snd (rescheduler e s cronJobId)) cronJobId =
              ticks_of s cronJobId @
              [(length (scheduled s) + (if stillRunning s cronJob then 0 else 1),
                \<lparr>scheduledTime = t, call = Rescheduler cronJobId, state = Pending\<rparr>)] \<and>
            db_get (snd (rescheduler e s cronJobId)) cronJobId =
              Some (cronJob\<lparr>schedulerJobId :=
                Some (length (scheduled s) + (if stillRunning s cronJob then 0 else 1))\<rparr>)) \<and>
         (\<forall>k. k \<noteq> cronJobId \<longrightarrow>
            ticks_of (snd (rescheduler e s cronJobId)) k = ticks_of s k \<and>
            db_get (snd (rescheduler e s cronJobId)) k = db_get s k) \<and>
         armed (snd (rescheduler e s cronJobId)) cronJobId \<and>
         (\<forall>k. armed s k \<longrightarrow> armed (snd (rescheduler e s cronJobId)) k)"
proof -
  from rescheduler_succeeds [OF assms] obtain cronJob sid job t where
    c: "db_get s cronJobId = Some cronJob" and
    sid: "schedulerJobId cronJob = Some sid" and
    j: "system_get s sid = Some job" and
    t: "next_fire e (scheduledTime job) (schedule cronJob) = Inr t" and
    eq: "rescheduler e s cronJobId = rearm (dispatch s cronJob) cronJobId t"
    by blast
  let ?s' = "snd (rescheduler e s cronJobId)"
  let ?h = "length (scheduled s) + (if stillRunning s cronJob then 0 else 1)"
  let ?new = "\<lparr>scheduledTime = t, call = Rescheduler cronJobId, state = Pending\<rparr>"
  have p: "pendingTick s cronJobId = Some job"
    using c sid j by (simp add: pendingTick_def)
  have len: "length (scheduled (dispatch s cronJob)) = ?h"
    by (simp add: scheduled_dispatch)
  have sch: "scheduled ?s' = scheduled (dispatch s cronJob) @ [Some ?new]"
    by (simp add: eq rearm_simps)
  have ticks: "ticks_of ?s' cronJobId = ticks_of s cronJobId @ [(?h, ?new)]"
    by (simp add: eq ticks_of_rearm len)
  have rec: "db_get ?s' cronJobId = Some (cronJob\<lparr>schedulerJobId := Some ?h\<rparr>)"
    using c by (simp add: eq rearm_simps len)
  have other: "ticks_of ?s' k = ticks_of s k \<and> db_get ?s' k = db_get s k"
    if "k \<noteq> cronJobId" for k
    using that by (simp add: eq ticks_of_rearm rearm_simps)
  have new: "system_get ?s' ?h = Some ?new"
    using system_get_last [OF sch] by (simp add: len)
  have here: "armed ?s' cronJobId"
    by (simp add: armed_def pendingTick_def rec new)
  obtain rest where rest: "scheduled ?s' = scheduled s @ rest"
    by (simp add: sch scheduled_dispatch)
  have kept: "armed ?s' k" if a: "armed s k" for k
  proof (cases "k = cronJobId")
    case True
    with here show ?thesis by simp
  next
    case False
    from a show ?thesis
      by (auto simp: armed_def pendingTick_def other [OF False]
          system_get_append [OF _ rest] split: option.splits)
  qed
  from c p t ticks rec other here kept show ?thesis
    by blast
qed

theorem tick_rearms_witness:
  "fst (rescheduler example_env (registered_once\<lparr>now := 1000\<rparr>) 0) = Inr () \<and>
   armed ticked_once 0 \<and>
   fst (rescheduler example_env busy 0) = Inr () \<and>
   armed (snd (rescheduler example_env busy 0)) 0"
proof -
  have a: "fst (rescheduler example_env (registered_once\<lparr>now := 1000\<rparr>) 0) = Inr ()"
    by (simp add: registered_once_eq run_defs)
  have b: "fst (rescheduler example_env busy 0) = Inr ()"
    by (simp add: busy_def work_job_def run_defs)
  show ?thesis
    using a b tick_rearms [OF a] tick_rearms [OF b] by (simp add: ticked_once_def)
qed

text \<open>
  Claim C3 (the \<open>k\<close>-th tick of an interval job is scheduled at exactly \<open>t0 + k * ms\<close>) is
  not stated. It is a statement about the doubles that the platform stores and that the
  rescheduler adds, and whole milliseconds would make it true where the program rounds.
  What this model shows of it is in the theorem on re-arming above: the time of the next
  tick is computed from the scheduled time of the running one and from the schedule, and
  the clock of the tick does not enter.
\<close>

section \<open>Deletion\<close>

text \<open>
  Claim C5: for an existing record whose \<open>schedulerJobId\<close> is set, \<open>del\<close> returns without
  error; it has canceled the scheduled function that \<open>schedulerJobId\<close> names and, when
  \<open>executionJobId\<close> is present, the one that it names (the scheduled functions are those
  of the context after these cancellations, and neither of the two is pending or in
  progress any more); it has deleted the record, so that \<open>get\<close> finds nothing, and it has
  left every other record as it was.
\<close>

theorem del_cancels_and_deletes:
  assumes "get s cronJobId = Some cronJob"
    and "schedulerJobId cronJob = Some sid"
  shows "fst (del s cronJobId) = Inr () \<and>
         get (snd (del s cronJobId)) cronJobId = None \<and>
         scheduled (snd (del s cronJobId)) =
           scheduled (case executionJobId cronJob of
                        None \<Rightarrow> cancel s sid
                      | Some eid \<Rightarrow> cancel (cancel s sid) eid) \<and>
         \<not> outstanding (snd (del s cronJobId)) sid \<and>
         (case executionJobId cronJob of
            None \<Rightarrow> True
          | Some eid \<Rightarrow> \<not> outstanding (snd (del s cronJobId)) eid) \<and>
         (\<forall>k. k \<noteq> cronJobId \<longrightarrow> get (snd (del s cronJobId)) k = get s k)"
  using assms
  by (simp add: del_def get_def Let_def db_delete_simps outstanding_cancel split: option.splits)

theorem del_cancels_and_deletes_witness:
  "get busy 0 = Some (work_job (Some 2) (Some 1)) \<and>
   del busy 0 =
     (Inr (),
      \<lparr>crons = [None],
       scheduled = [Some \<lparr>scheduledTime = 1000, call = Rescheduler 0, state = Success\<rparr>,
                    Some \<lparr>scheduledTime = 1000, call = Target ''work'' [(''n'', 1)],
                          state = Canceled\<rparr>,
                    Some \<lparr>scheduledTime = 2000, call = Rescheduler 0, state = Canceled\<rparr>],
       now = 2000\<rparr>) \<and>
   get (snd (del busy 0)) 0 = None \<and>
   \<not> outstanding (snd (del busy 0)) 2 \<and>
   \<not> outstanding (snd (del busy 0)) 1"
proof -
  have c: "get busy 0 = Some (work_job (Some 2) (Some 1))"
    by (simp add: get_def db_get_def busy_def)
  have sid: "schedulerJobId (work_job (Some 2) (Some 1)) = Some 2"
    by (simp add: work_job_def)
  have d: "del busy 0 =
     (Inr (),
      \<lparr>crons = [None],
       scheduled = [Some \<lparr>scheduledTime = 1000, call = Rescheduler 0, state = Success\<rparr>,
                    Some \<lparr>scheduledTime = 1000, call = Target ''work'' [(''n'', 1)],
                          state = Canceled\<rparr>,
                    Some \<lparr>scheduledTime = 2000, call = Rescheduler 0, state = Canceled\<rparr>],
       now = 2000\<rparr>)"
    by (simp add: busy_def work_job_def run_defs)
  from del_cancels_and_deletes [OF c sid]
  have g: "get (snd (del busy 0)) 0 = None"
    and o2: "\<not> outstanding (snd (del busy 0)) 2"
    and o1: "\<not> outstanding (snd (del busy 0)) 1"
    by (simp_all add: work_job_def)
  from c d g o2 o1 show ?thesis
    by (intro conjI)
qed

text \<open>
  Claim C7, as written, ends: \<open>delByName\<close> fails with \<open>JobNotFound\<close> when no record has
  the name and otherwise delegates to \<open>del\<close>. When several records have the name it does
  neither. Two calls \<open>intervalWithName(ctx, "", 1000, work)\<close> leave two records named
  \<open>""\<close>; deleting either by id succeeds, and \<open>delByName(ctx, "")\<close> throws the error of the
  lookup \<open>unique()\<close>, having deleted and canceled nothing.
\<close>

theorem delByName_ambiguous:
  "map_option name (get two_blank 0) = Some (Some []) \<and>
   map_option name (get two_blank 1) = Some (Some []) \<and>
   delByName two_blank [] = (Inl NotUnique, two_blank) \<and>
   fst (del two_blank 0) = Inr () \<and>
   fst (del two_blank 1) = Inr ()"
  by (simp add: two_blank_eq run_defs)

text \<open>
  Claim C7, amended: \<open>del\<close> on an id with no record fails with \<open>JobNotFound\<close>, and on a
  record whose \<open>schedulerJobId\<close> is unset with \<open>NotScheduled\<close>; in both cases the context
  at the throw is the context of the call: nothing was canceled, changed or deleted.
  \<open>delByName\<close> fails with \<open>JobNotFound\<close>, likewise without effect, when no record has the
  name, and does exactly what \<open>del\<close> does on the record's id when exactly one record has
  the name.
\<close>

theorem del_errors:
  "(get s cronJobId = None \<longrightarrow> del s cronJobId = (Inl JobNotFound, s)) \<and>
   (\<forall>cronJob. get s cronJobId = Some cronJob \<and> schedulerJobId cronJob = None \<longrightarrow>
      del s cronJobId = (Inl NotScheduled, s)) \<and>
   ((\<forall>i d. get s i = Some d \<longrightarrow> name d \<noteq> Some n) \<longrightarrow> delByName s n = (Inl JobNotFound, s)) \<and>
   (\<forall>i d. get s i = Some d \<and> name d = Some n \<and>
      (\<forall>i' d'. get s i' = Some d' \<and> name d' = Some n \<longrightarrow> i' = i) \<longrightarrow>
      delByName s n = del s i)"
proof (intro conjI allI impI)
  assume "get s cronJobId = None"
  then show "del s cronJobId = (Inl JobNotFound, s)"
    by (simp add: del_def get_def)
next
  fix cronJob
  assume "get s cronJobId = Some cronJob \<and> schedulerJobId cronJob = None"
  then show "del s cronJobId = (Inl NotScheduled, s)"
    by (simp add: del_def get_def)
next
  assume "\<forall>i d. get s i = Some d \<longrightarrow> name d \<noteq> Some n"
  then have "with_name s n = []" by (simp only: with_name_empty)
  then show "delByName s n = (Inl JobNotFound, s)"
    by (simp add: delByName_def getByName_def unique_def)
next
  fix i d
  assume "get s i = Some d \<and> name d = Some n \<and>
      (\<forall>i' d'. get s i' = Some d' \<and> name d' = Some n \<longrightarrow> i' = i)"
  then have "with_name s n = [(i, d)]" by (intro with_name_single) auto
  then show "delByName s n = del s i"
    by (simp add: delByName_def getByName_def unique_def)
qed

theorem del_errors_witness:
  "del start 0 = (Inl JobNotFound, start) \<and>
   del unscheduled 0 = (Inl NotScheduled, unscheduled) \<and>
   delByName start ''nightly'' = (Inl JobNotFound, start) \<and>
   delByName nightly ''nightly'' = del nightly 0 \<and>
   fst (del nightly 0) = Inr ()"
proof -
  have a: "get start 0 = None"
    by (simp add: get_def db_get_def start_def)
  have b: "get unscheduled 0 = Some (work_job None None) \<and>
      schedulerJobId (work_job None None) = None"
    by (simp add: get_def db_get_def unscheduled_def work_job_def)
  have c: "\<forall>i d. get start i = Some d \<longrightarrow> name d \<noteq> Some ''nightly''"
    by (simp add: get_def db_get_def start_def)
  have g: "get nightly i = Some d \<longleftrightarrow>
      i = 0 \<and> d = \<lparr>functionName = ''report'', args = [], name = Some ''nightly'',
        schedule = Cron ''0 0 * * *'', schedulerJobId = Some 0, executionJobId = None\<rparr>"
    for i d
    by (auto simp: get_def db_get_def nightly_eq)
  have d: "get nightly 0 = Some \<lparr>functionName = ''report'', args = [], name = Some ''nightly'',
        schedule = Cron ''0 0 * * *'', schedulerJobId = Some 0, executionJobId = None\<rparr> \<and>
      name \<lparr>functionName = ''report'', args = [], name = Some ''nightly'',
        schedule = Cron ''0 0 * * *'', schedulerJobId = Some 0,
        executionJobId = None\<rparr> = Some ''nightly'' \<and>
      (\<forall>i' d'. get nightly i' = Some d' \<and> name d' = Some ''nightly'' \<longrightarrow> i' = 0)"
    by (simp add: g)
  have ok: "fst (del nightly 0) = Inr ()"
    by (simp add: nightly_eq run_defs)
  from del_errors [of start 0 "''nightly''"] a c
  have 1: "del start 0 = (Inl JobNotFound, start)"
    and 3: "delByName start ''nightly'' = (Inl JobNotFound, start)"
    by blast+
  from del_errors [of unscheduled 0 "''nightly''"] b
  have 2: "del unscheduled 0 = (Inl NotScheduled, unscheduled)"
    by blast
  from del_errors [of nightly 0 "''nightly''"] d
  have 4: "delByName nightly ''nightly'' = del nightly 0"
    by blast
  from 1 2 3 4 ok show ?thesis by simp
qed

section \<open>The names stay unique\<close>

text \<open>
  Deletion and ticks keep the invariant that registration establishes: a tick changes no
  name and a deletion removes one.
\<close>

lemma names_rows: "names s = map (\<lambda>r. name (the r)) (filter (\<lambda>r. r \<noteq> None) (crons s))"
proof -
  have "names s = map name (map snd (collect s))"
    by (simp add: names_def)
  then show ?thesis
    by (simp add: collect_def snd_docs_from)
qed

lemma names_db_patch:
  assumes "\<And>d. name (f d) = name d"
  shows "names (snd (db_patch s i f)) = names s"
proof (cases "db_get s i")
  case None
  then show ?thesis by (simp add: db_patch_def)
next
  case (Some d)
  then have i: "i < length (crons s)" and d: "crons s ! i = Some d"
    by (auto simp: db_get_def split: if_splits)
  have old: "crons s = take i (crons s) @ Some d # drop (Suc i) (crons s)"
    using i d by (metis id_take_nth_drop)
  have new: "(crons s)[i := Some (f d)] = take i (crons s) @ Some (f d) # drop (Suc i) (crons s)"
    using i by (rule upd_conv_take_nth_drop)
  have "names (snd (db_patch s i f)) =
      map (\<lambda>r. name (the r))
        (filter (\<lambda>r. r \<noteq> None) (take i (crons s) @ Some (f d) # drop (Suc i) (crons s)))"
    using Some new by (simp add: names_rows db_patch_def)
  also have "\<dots> =
      map (\<lambda>r. name (the r))
        (filter (\<lambda>r. r \<noteq> None) (take i (crons s) @ Some d # drop (Suc i) (crons s)))"
    by (simp add: assms)
  also have "\<dots> = names s"
    using old by (simp add: names_rows)
  finally show ?thesis .
qed

lemma names_unique_db_delete:
  assumes "names_unique s"
  shows "names_unique (snd (db_delete s i))"
proof (cases "db_get s i")
  case None
  with assms show ?thesis by (simp add: db_delete_def)
next
  case (Some d)
  then have i: "i < length (crons s)" and d: "crons s ! i = Some d"
    by (auto simp: db_get_def split: if_splits)
  have old: "crons s = take i (crons s) @ Some d # drop (Suc i) (crons s)"
    using i d by (metis id_take_nth_drop)
  have new: "(crons s)[i := None] = take i (crons s) @ None # drop (Suc i) (crons s)"
    using i by (rule upd_conv_take_nth_drop)
  let ?nm = "\<lambda>rows. map (\<lambda>r. name (the r)) (filter (\<lambda>r. r \<noteq> None) rows)"
  have a: "names s = ?nm (take i (crons s)) @ name d # ?nm (drop (Suc i) (crons s))"
    by (subst names_rows, subst old) simp
  have b: "names (snd (db_delete s i)) = ?nm (take i (crons s)) @ ?nm (drop (Suc i) (crons s))"
    using Some new by (simp add: names_rows db_delete_def)
  from assms show ?thesis
    unfolding names_unique_def a b by (auto split: if_splits)
qed

lemma names_cancel [simp]: "names (cancel s j) = names s"
  by (simp add: names_rows)

lemma names_dispatch [simp]: "names (dispatch s c) = names s"
  by (simp add: names_rows)

lemma names_rearm [simp]: "names (snd (rearm s i t)) = names s"
  unfolding rearm_def by (subst names_db_patch) (simp_all add: names_rows)

lemma names_unique_del:
  assumes "names_unique s"
  shows "names_unique (snd (del s cronJobId))"
proof -
  have c: "names_unique (cancel s' j)" if "names_unique s'" for s' :: "'a ctx" and j
    using that by (simp add: names_unique_def)
  show ?thesis
    using assms
    by (auto simp: del_def Let_def intro!: names_unique_db_delete c split: option.splits)
qed

lemma names_unique_delByName:
  "names_unique s \<Longrightarrow> names_unique (snd (delByName s n))"
  by (auto simp: delByName_def names_unique_del split: sum.splits option.splits)

lemma names_rescheduler: "names (snd (rescheduler e s cronJobId)) = names s"
  using rescheduler_cases [of e s cronJobId] by auto

lemma names_unique_rescheduler:
  "names_unique s \<Longrightarrow> names_unique (snd (rescheduler e s cronJobId))"
  by (simp add: names_unique_def names_rescheduler)

section \<open>Contexts the module can reach\<close>

lemma no_execution_job_iff:
  "no_execution_job s \<longleftrightarrow> (\<forall>i d. db_get s i = Some d \<longrightarrow> executionJobId d = None)"
proof -
  have "no_execution_job s \<longleftrightarrow> (\<forall>doc \<in> set (collect s). executionJobId (snd doc) = None)"
    by (simp add: no_execution_job_def list_all_iff)
  also have "\<dots> \<longleftrightarrow> (\<forall>i d. (i, d) \<in> set (collect s) \<longrightarrow> executionJobId d = None)"
    by auto
  finally show ?thesis
    by (simp add: in_collect get_def)
qed

lemma db_get_registered:
  "db_get (registered e s sched func nm a) k =
     (if k = length (crons s)
      then Some \<lparr>functionName = func, args = parseArgs e a, name = nm, schedule = sched,
                  schedulerJobId = Some (length (scheduled s)), executionJobId = None\<rparr>
      else db_get s k)"
  by (auto simp: registered_def db_get_def nth_append)

lemma db_get_del: "db_get (snd (del s i)) k = db_get s k \<or> db_get (snd (del s i)) k = None"
  by (auto simp: del_def Let_def db_delete_simps split: option.splits)

text \<open>The names are unique in every context the module can reach.\<close>

lemma reachable_names_unique: "reachable e s \<Longrightarrow> names_unique s"
proof (induction rule: reachable.induct)
  case (deployed t)
  show ?case by (rule names_unique_start)
next
  case (registers s sched func nm a i s')
  with names_unique_scheduleCron [of s e sched func nm a] show ?case by simp
next
  case (deletes s i s')
  with names_unique_del [of s i] show ?case by simp
next
  case (ticks s i s')
  with names_unique_rescheduler [of s e i] show ?case by simp
next
  case (clock s t)
  then show ?case by (simp add: names_unique_def names_rows)
next
  case (platform s j job st)
  then show ?case by (simp add: names_unique_def names_rows)
qed

text \<open>
  No record there has an \<open>executionJobId\<close>; so no tick there finds the previous run still
  running, and the overlap check never holds a dispatch back.
\<close>

lemma reachable_no_execution_job: "reachable e s \<Longrightarrow> no_execution_job s"
proof (induction rule: reachable.induct)
  case (deployed t)
  show ?case by (simp add: no_execution_job_def collect_def)
next
  case (registers s sched func nm a i s')
  then have "s' = registered e s sched func nm a"
    by (auto simp: scheduleCron_eq split: sum.splits)
  with registers.IH show ?case
    by (auto simp: no_execution_job_iff db_get_registered split: if_splits)
next
  case (deletes s i s')
  then have s': "s' = snd (del s i)" by simp
  show ?case
    unfolding no_execution_job_iff s'
  proof (intro allI impI)
    fix k d
    assume "db_get (snd (del s i)) k = Some d"
    with db_get_del [of s i k] have "db_get s k = Some d" by auto
    with deletes.IH show "executionJobId d = None"
      by (simp add: no_execution_job_iff)
  qed
next
  case (ticks s i s')
  then have s': "s' = snd (rescheduler e s i)" by simp
  show ?case
    unfolding no_execution_job_iff s'
  proof (intro allI impI)
    fix k d
    assume g: "db_get (snd (rescheduler e s i)) k = Some d"
    with rescheduler_keeps_executionJobId [of e s i k]
    obtain d' where "db_get s k = Some d'" "executionJobId d' = executionJobId d"
      by (cases "db_get s k") auto
    with ticks.IH show "executionJobId d = None"
      by (simp add: no_execution_job_iff)
  qed
next
  case (clock s t)
  then show ?case by (simp add: no_execution_job_iff)
next
  case (platform s j job st)
  have "db_get (s\<lparr>scheduled := (scheduled s)[j := Some (job\<lparr>state := st\<rparr>)]\<rparr>) k = db_get s k"
    for k
    by (simp add: db_get_def)
  with platform.IH show ?case by (simp add: no_execution_job_iff)
qed

lemma reachable_never_stillRunning:
  "reachable e s \<Longrightarrow> db_get s i = Some cronJob \<Longrightarrow> \<not> stillRunning s cronJob"
  using reachable_no_execution_job [of e s]
  by (auto simp: no_execution_job_iff stillRunning_def)

end
